theory Spec2Isabelle
  imports Complex_Main "HOL-Library.AList" "HOL-Library.Product_Lexorder"
begin

section \<open>Python values used by the vector store\<close>

text \<open>
  The store of \<^verbatim>\<open>app/vector_store.py\<close> is a Python object that owns a faiss index,
  a metadata dictionary and a counter, and that writes two files on every \<^verbatim>\<open>add\<close>.
  Exceptions are values of the type \<open>error\<close>; a call that raises returns \<open>Inl\<close>.
  The components of an embedding are float32 numbers in the program; they are modelled
  as real numbers, so rounding, overflow, infinities and NaN are outside this model.
\<close>

datatype error = AssertionError | IndexError | ValueError | JSONDecodeError | RuntimeError

text \<open>
  A numpy array as the store can receive it: one-dimensional of shape \<open>(n,)\<close>, or
  two-dimensional of shape \<open>(rows, ncols)\<close>. The column count of a two-dimensional
  array is kept apart from its rows, since an array of shape \<open>(0, ncols)\<close> has no
  row to read it from.
\<close>

datatype ndarray = Array1 "real list" | Array2 nat "real list list"

fun well_shaped :: "ndarray \<Rightarrow> bool" where
  "well_shaped (Array1 v) = True"
| "well_shaped (Array2 c rows) = list_all (\<lambda>r. length r = c) rows"

text \<open>
  The two-dimensional view taken at lines 52-53 and 88-89:
  \<^verbatim>\<open>if len(embedding.shape) == 1: embedding = embedding.reshape(1, -1)\<close>.
  The view shares the buffer of the caller's array.
\<close>

fun ncols :: "ndarray \<Rightarrow> nat" where
  "ncols (Array1 v) = length v"
| "ncols (Array2 c rows) = c"

fun rows_of :: "ndarray \<Rightarrow> real list list" where
  "rows_of (Array1 v) = [v]"
| "rows_of (Array2 c rows) = rows"

text \<open>
  The chunk lists of the metadata are mutable Python lists, passed and returned by
  reference. They live in a heap of list objects; an address is a position in it.
\<close>

datatype chunk = Chunk (timestamp: "real \<times> real") (chunk_text: string)

type_synonym addr = nat
type_synonym heap = "chunk list list"

definition deref :: "heap \<Rightarrow> addr \<Rightarrow> chunk list" where
  \<comment> \<open>A Python reference is never dangling; an address outside the heap reads as the empty list.\<close>
  "deref h a = (if a < length h then h ! a else [])"

definition alloc :: "heap \<Rightarrow> chunk list \<Rightarrow> heap \<times> addr" where
  "alloc h xs = (h @ [xs], length h)"

section \<open>The faiss index\<close>

text \<open>
  Modelled from the spec: the VectorIndex of section 4.1 is \<^verbatim>\<open>faiss.IndexFlatL2\<close>, a library
  whose code is not part of the repository. The model keeps the dimension and the stored
  vectors in id order. \<^verbatim>\<open>index.add\<close> and \<^verbatim>\<open>index.search\<close> check the column count of
  their argument against the dimension of the index and raise otherwise (an assertion
  of the library's Python wrapper, the error the spec calls DimensionMismatch).
\<close>

record index_flat =
  idx_d :: nat
  idx_xb :: "real list list"

definition IndexFlatL2 :: "nat \<Rightarrow> index_flat" where
  \<comment> \<open>Modelled from the spec: the library's constructor; an empty index for the requested dimension.\<close>
  "IndexFlatL2 dm = \<lparr>idx_d = dm, idx_xb = []\<rparr>"

definition ntotal :: "index_flat \<Rightarrow> int" where
  \<comment> \<open>Modelled from the spec: the library's count of stored vectors.\<close>
  "ntotal idx = int (length (idx_xb idx))"

definition index_add :: "index_flat \<Rightarrow> nat \<Rightarrow> real list list \<Rightarrow> error + index_flat" where
  \<comment> \<open>Modelled from the spec: the library's \<^verbatim>\<open>index.add\<close>; every row of the argument is appended.\<close>
  "index_add idx c rows =
     (if c \<noteq> idx_d idx then Inl AssertionError
      else Inr (idx\<lparr>idx_xb := idx_xb idx @ rows\<rparr>))"

text \<open>
  Modelled from the spec: \<^verbatim>\<open>faiss.normalize_L2\<close> divides every row by its Euclidean norm,
  in place; a row of norm zero is left as it is.
\<close>

definition fvec_norm_L2sqr :: "real list \<Rightarrow> real" where
  \<comment> \<open>Modelled from the spec: the squared Euclidean norm the library computes.\<close>
  "fvec_norm_L2sqr v = sum_list (map (\<lambda>x. x * x) v)"

definition renorm_L2 :: "real list \<Rightarrow> real list" where
  \<comment> \<open>Modelled from the spec: the library's normalisation of one row; norm zero is a no-op.\<close>
  "renorm_L2 v =
     (let nr = fvec_norm_L2sqr v
      in if nr > 0 then map (\<lambda>x. x * (1 / sqrt nr)) v else v)"

definition normalize_L2 :: "real list list \<Rightarrow> real list list" where
  \<comment> \<open>Modelled from the spec: \<^verbatim>\<open>faiss.normalize_L2\<close> on the rows of a two-dimensional array.\<close>
  "normalize_L2 rows = map renorm_L2 rows"

text \<open>
  What the caller's array holds once the rows of its view have been overwritten.
\<close>

fun written_back :: "ndarray \<Rightarrow> real list list \<Rightarrow> ndarray" where
  "written_back (Array1 v) rows = Array1 (concat rows)"
| "written_back (Array2 c old) rows = Array2 c rows"

text \<open>
  Modelled from the spec: \<^verbatim>\<open>index.search\<close> computes the squared Euclidean distance from
  each query row to every stored vector and returns, per query row, the \<open>k\<close> smallest in
  ascending order of distance, equal distances in ascending order of id. Where fewer
  than \<open>k\<close> vectors are stored the library fills the row with the label \<open>-1\<close>.
\<close>

definition fvec_L2sqr :: "real list \<Rightarrow> real list \<Rightarrow> real" where
  \<comment> \<open>Modelled from the spec: the squared Euclidean distance the library computes.\<close>
  "fvec_L2sqr x y = sum_list (map (\<lambda>(a, b). (a - b) * (a - b)) (zip x y))"

definition FLT_MAX :: real where
  \<comment> \<open>Modelled from the spec: the distance the library writes beside a label \<open>-1\<close>.\<close>
  "FLT_MAX = 340282346638528859811704183484516925440"

definition scores :: "index_flat \<Rightarrow> real list \<Rightarrow> (real \<times> int) list" where
  \<comment> \<open>Modelled from the spec: the distance from the query to every stored vector, with its id.\<close>
  "scores idx q = zip (map (fvec_L2sqr q) (idx_xb idx)) (map int [0..<length (idx_xb idx)])"

definition knn :: "index_flat \<Rightarrow> real list \<Rightarrow> nat \<Rightarrow> (real \<times> int) list" where
  \<comment> \<open>Modelled from the spec: the \<open>k\<close> smallest, ascending, ties by ascending id.\<close>
  "knn idx q k =
     (let best = take k (sort (scores idx q))
      in best @ replicate (k - length best) (FLT_MAX, -1))"

definition index_search ::
  "index_flat \<Rightarrow> nat \<Rightarrow> real list list \<Rightarrow> int \<Rightarrow> error + (real list list \<times> int list list)" where
  \<comment> \<open>Modelled from the spec: the library's \<^verbatim>\<open>index.search\<close>; it returns the distances and the labels.\<close>
  "index_search idx c rows k =
     (if c \<noteq> idx_d idx then Inl AssertionError
      else if k \<le> 0 then Inl AssertionError
      else let found = map (\<lambda>q. knn idx q (nat k)) rows
           in Inr (map (map fst) found, map (map snd) found))"

section \<open>Files\<close>

text \<open>
  A file is absent (\<open>None\<close>), holds bytes that its reader rejects, or holds a document.
  The two paths of the store are fixed; directories are not modelled and a write always
  succeeds.
\<close>

datatype 'a disk_file = Unreadable | Content 'a

record json_entry =
  j_text :: "string option"
  j_audio_path :: "string option"
  j_chunks :: "chunk list option"

record json_doc =
  doc_next_id :: "int option"
  doc_metadata :: "(string \<times> json_entry) list option"

record world =
  heap :: heap
  index_file :: "index_flat disk_file option"
  metadata_file :: "json_doc disk_file option"

text \<open>
  Modelled from the spec: \<^verbatim>\<open>faiss.write_index\<close> and \<^verbatim>\<open>faiss.read_index\<close>, library code,
  keep the dimension, the count and the vectors of the index exactly; the content of an
  index file is the index.
\<close>

definition read_index :: "index_flat disk_file \<Rightarrow> error + index_flat" where
  \<comment> \<open>Modelled from the spec: the library's reader; it raises on bytes it cannot read.\<close>
  "read_index f = (case f of Unreadable \<Rightarrow> Inl RuntimeError | Content idx \<Rightarrow> Inr idx)"

subsection \<open>Dictionary keys in the JSON document\<close>

text \<open>
  \<^verbatim>\<open>json.dump\<close> writes an integer key as \<^verbatim>\<open>str(key)\<close>; \<^verbatim>\<open>_load_metadata\<close> reads it
  back with \<^verbatim>\<open>int(k)\<close>, which accepts surrounding white space, one sign and decimal
  digits with single underscores between them, and raises ValueError on anything else.
  A character of a key is a code point up to U+00FF. There \<^verbatim>\<open>int\<close> takes as white space
  the six ASCII characters of C's \<^verbatim>\<open>isspace\<close> and, beyond ASCII, U+0085 and U+00A0 (the
  ASCII separators U+001C to U+001F are not taken); the only decimal digits are
  \<^verbatim>\<open>0\<close> to \<^verbatim>\<open>9\<close>. Two things are outside this model: the decimal digits and white space
  of code points above U+00FF, which \<^verbatim>\<open>int\<close> accepts too, and the limit on the number of
  digits (4300 by default) that interpreters from Python 3.11 on enforce in \<^verbatim>\<open>int\<close> and
  \<^verbatim>\<open>str\<close>. On keys of at most 4300 ASCII characters the model is exact; statements
  about which keys are rejected are made for such keys (\<open>plain_keys\<close> below).
\<close>

definition digit_char :: "nat \<Rightarrow> char" where
  "digit_char n = char_of (48 + n)"

definition is_digit :: "char \<Rightarrow> bool" where
  "is_digit c = (48 \<le> (of_char c :: nat) \<and> (of_char c :: nat) \<le> 57)"

definition digit_val :: "char \<Rightarrow> nat" where
  "digit_val c = of_char c - 48"

function str_nat :: "nat \<Rightarrow> string" where
  "str_nat n = (if n < 10 then [digit_char n] else str_nat (n div 10) @ [digit_char (n mod 10)])"
  by pat_completeness auto
termination
  by (relation "measure id") auto

declare str_nat.simps [simp del]

definition py_str :: "int \<Rightarrow> string" where
  "py_str i = (if i < 0 then CHR ''-'' # str_nat (nat (- i)) else str_nat (nat i))"

definition is_space :: "char \<Rightarrow> bool" where
  "is_space c = ((of_char c :: nat) \<in> {9, 10, 11, 12, 13, 32, 133, 160})"

definition strip :: "string \<Rightarrow> string" where
  "strip s = rev (dropWhile is_space (rev (dropWhile is_space s)))"

fun after_digit :: "nat \<Rightarrow> string \<Rightarrow> nat option" where
  "after_digit acc [] = Some acc"
| "after_digit acc [c] = (if is_digit c then Some (10 * acc + digit_val c) else None)"
| "after_digit acc (c # c' # cs) =
     (if is_digit c then after_digit (10 * acc + digit_val c) (c' # cs)
      else if c = CHR ''_'' \<and> is_digit c' then after_digit (10 * acc + digit_val c') cs
      else None)"

definition parse_nat :: "string \<Rightarrow> nat option" where
  "parse_nat s =
     (case s of [] \<Rightarrow> None
      | c # cs \<Rightarrow> if is_digit c then after_digit (digit_val c) cs else None)"

definition py_int :: "string \<Rightarrow> error + int" where
  "py_int s =
     (let t = strip s;
          r = (case t of [] \<Rightarrow> None
               | c # cs \<Rightarrow>
                   if c = CHR ''-'' then map_option (\<lambda>n. - int n) (parse_nat cs)
                   else if c = CHR ''+'' then map_option int (parse_nat cs)
                   else map_option int (parse_nat t))
      in case r of None \<Rightarrow> Inl ValueError | Some i \<Rightarrow> Inr i)"

section \<open>The store\<close>

text \<open>
  A metadata record is a Python dictionary; \<^verbatim>\<open>search\<close> reads its three keys with
  defaults, so each may be missing. The dictionary \<^verbatim>\<open>self.metadata\<close> keeps insertion
  order and is an association list under \<open>AList.update\<close>.
\<close>

record entry =
  e_text :: "string option"
  e_audio_path :: "string option"
  e_chunks :: "addr option"

record store =
  dimension :: nat
  index :: index_flat
  metadata :: "(int \<times> entry) list"
  next_id :: int

definition save_index :: "store \<Rightarrow> world \<Rightarrow> world" where
  "save_index s w = w\<lparr>index_file := Some (Content (index s))\<rparr>"

definition dump_entry :: "heap \<Rightarrow> entry \<Rightarrow> json_entry" where
  "dump_entry h e =
     \<lparr>j_text = e_text e, j_audio_path = e_audio_path e,
      j_chunks = map_option (deref h) (e_chunks e)\<rparr>"

definition save_metadata :: "store \<Rightarrow> world \<Rightarrow> world" where
  "save_metadata s w =
     w\<lparr>metadata_file := Some (Content
         \<lparr>doc_next_id = Some (next_id s),
          doc_metadata = Some (map (\<lambda>(k, e). (py_str k, dump_entry (heap w) e)) (metadata s))\<rparr>)\<rparr>"

text \<open>
  \<^verbatim>\<open>json.load\<close> builds fresh list objects for the chunks of every record; the dictionary
  comprehension of line 138 then inserts the records under \<^verbatim>\<open>int(k)\<close>, in file order,
  a later key overwriting an equal earlier one.
\<close>

definition load_entry :: "heap \<Rightarrow> json_entry \<Rightarrow> heap \<times> entry" where
  "load_entry h j =
     (case j_chunks j of
        None \<Rightarrow> (h, \<lparr>e_text = j_text j, e_audio_path = j_audio_path j, e_chunks = None\<rparr>)
      | Some cs \<Rightarrow>
          (let (h', a) = alloc h cs
           in (h', \<lparr>e_text = j_text j, e_audio_path = j_audio_path j, e_chunks = Some a\<rparr>)))"

fun load_items ::
  "heap \<Rightarrow> (int \<times> entry) list \<Rightarrow> (string \<times> json_entry) list
     \<Rightarrow> error + (heap \<times> (int \<times> entry) list)" where
  "load_items h acc [] = Inr (h, acc)"
| "load_items h acc ((k, j) # items) =
     (case py_int k of
        Inl e \<Rightarrow> Inl e
      | Inr i \<Rightarrow> (let (h', e) = load_entry h j in load_items h' (AList.update i e acc) items))"

definition load_metadata :: "store \<Rightarrow> world \<Rightarrow> error + (world \<times> store)" where
  "load_metadata s w =
     (case metadata_file w of
        None \<Rightarrow> Inr (w, s\<lparr>metadata := [], next_id := 0\<rparr>)
      | Some Unreadable \<Rightarrow> Inl JSONDecodeError
      | Some (Content doc) \<Rightarrow>
          (case load_items (heap w) [] (case doc_metadata doc of None \<Rightarrow> [] | Some items \<Rightarrow> items) of
             Inl e \<Rightarrow> Inl e
           | Inr (h', m) \<Rightarrow>
               Inr (w\<lparr>heap := h'\<rparr>,
                    s\<lparr>metadata := m,
                      next_id := (case doc_next_id doc of None \<Rightarrow> 0 | Some n \<Rightarrow> n)\<rparr>)))"

text \<open>
  The constructor, lines 17-36. The requested dimension is stored in the object; an
  existing index file is read as it is.
\<close>

definition FAISSVectorStore :: "nat \<Rightarrow> world \<Rightarrow> error + (world \<times> store)" where
  "FAISSVectorStore dm w =
     (let s0 = \<lparr>dimension = dm, index = IndexFlatL2 dm, metadata = [], next_id = 0\<rparr>
      in case index_file w of
           Some f \<Rightarrow>
             (case read_index f of
                Inl e \<Rightarrow> Inl e
              | Inr idx \<Rightarrow> load_metadata (s0\<lparr>index := idx\<rparr>) w)
         | None \<Rightarrow> Inr (save_metadata s0 w, s0))"

text \<open>
  \<^verbatim>\<open>add\<close>, lines 52-74. The first component of the result is what the caller's array
  holds when the call returns or raises: \<^verbatim>\<open>faiss.normalize_L2\<close> writes through the view
  into the caller's buffer, and only \<^verbatim>\<open>astype\<close> at line 59 makes a copy.
  \<^verbatim>\<open>chunks or []\<close> keeps the caller's list object unless it is \<^verbatim>\<open>None\<close> or empty.
\<close>

definition chunks_or_empty :: "heap \<Rightarrow> addr option \<Rightarrow> heap \<times> addr" where
  "chunks_or_empty h chunks =
     (case chunks of
        None \<Rightarrow> alloc h []
      | Some a \<Rightarrow> if deref h a = [] then alloc h [] else (h, a))"

definition add ::
  "store \<Rightarrow> world \<Rightarrow> ndarray \<Rightarrow> string \<Rightarrow> string \<Rightarrow> addr option
     \<Rightarrow> ndarray \<times> (error + (world \<times> store \<times> int))" where
  "add s w embedding txt audio_path chunks =
     (let rows = normalize_L2 (rows_of embedding);
          embedding' = written_back embedding rows
      in case index_add (index s) (ncols embedding) rows of
           Inl e \<Rightarrow> (embedding', Inl e)
         | Inr idx \<Rightarrow>
             (let vector_id = next_id s;
                  (h', a) = chunks_or_empty (heap w) chunks;
                  s' = s\<lparr>index := idx,
                         metadata := AList.update vector_id
                            \<lparr>e_text = Some txt, e_audio_path = Some audio_path, e_chunks = Some a\<rparr>
                            (metadata s),
                         next_id := next_id s + 1\<rparr>;
                  w' = save_metadata s' (save_index s' (w\<lparr>heap := h'\<rparr>))
              in (embedding', Inr (w', s', vector_id))))"

text \<open>
  \<^verbatim>\<open>search\<close>, lines 87-117. A result is a fresh dictionary; its \<open>chunks\<close> field is the
  list object found in the metadata record, or a fresh empty list where the record or
  the key is missing.
\<close>

record result =
  r_id :: int
  r_distance :: real
  r_similarity_score :: real
  r_text :: string
  r_audio_path :: string
  r_chunks :: addr

definition get_str :: "string option \<Rightarrow> string" where
  "get_str v = (case v of None \<Rightarrow> [] | Some t \<Rightarrow> t)"

fun format_results ::
  "(int \<times> entry) list \<Rightarrow> heap \<Rightarrow> result list \<Rightarrow> (real \<times> int) list \<Rightarrow> heap \<times> result list" where
  "format_results m h results [] = (h, results)"
| "format_results m h results ((dis, i) # rest) =
     (if i = -1 then format_results m h results rest
      else
        (let e = (case map_of m i of
                    None \<Rightarrow> \<lparr>e_text = None, e_audio_path = None, e_chunks = None\<rparr>
                  | Some e \<Rightarrow> e);
             (h', a) = (case e_chunks e of None \<Rightarrow> alloc h [] | Some a \<Rightarrow> (h, a))
         in format_results m h'
              (results @ [\<lparr>r_id = i, r_distance = dis,
                           r_similarity_score = 1 / (1 + dis),
                           r_text = get_str (e_text e),
                           r_audio_path = get_str (e_audio_path e),
                           r_chunks = a\<rparr>])
              rest))"

definition search ::
  "store \<Rightarrow> world \<Rightarrow> ndarray \<Rightarrow> int \<Rightarrow> ndarray \<times> (error + (world \<times> result list))" where
  "search s w query_embedding k0 =
     (let rows = normalize_L2 (rows_of query_embedding);
          query' = written_back query_embedding rows;
          k = min k0 (ntotal (index s))
      in if k = 0 then (query', Inr (w, []))
         else case index_search (index s) (ncols query_embedding) rows k of
                Inl e \<Rightarrow> (query', Inl e)
              | Inr (distances, indices) \<Rightarrow>
                  (case (distances, indices) of
                     (d0 # _, i0 # _) \<Rightarrow>
                       (let (h', results) = format_results (metadata s) (heap w) [] (zip d0 i0)
                        in (query', Inr (w\<lparr>heap := h'\<rparr>, results)))
                   | _ \<Rightarrow> (query', Inl IndexError)))"

definition get_stats :: "store \<Rightarrow> int \<times> nat" where
  "get_stats s = (ntotal (index s), dimension s)"

section \<open>Callers\<close>

text \<open>
  A process constructs the store once and then calls \<^verbatim>\<open>add\<close> and \<^verbatim>\<open>search\<close>; a later
  process constructs it again from the files the earlier one left. A call that raises
  leaves the store and the files as they were before it.
\<close>

datatype op = Add ndarray string string "addr option" | Search ndarray int | Restart nat

datatype outcome = Added int | Found "result list" | Restarted | Raised error

fun step :: "op \<Rightarrow> world \<times> store \<Rightarrow> (world \<times> store) \<times> outcome" where
  "step (Add v txt audio_path chunks) (w, s) =
     (case snd (add s w v txt audio_path chunks) of
        Inl e \<Rightarrow> ((w, s), Raised e)
      | Inr (w', s', i) \<Rightarrow> ((w', s'), Added i))"
| "step (Search q k) (w, s) =
     (case snd (search s w q k) of
        Inl e \<Rightarrow> ((w, s), Raised e)
      | Inr (w', results) \<Rightarrow> ((w', s), Found results))"
| "step (Restart dm) (w, s) =
     (case FAISSVectorStore dm w of
        Inl e \<Rightarrow> ((w, s), Raised e)
      | Inr (w', s') \<Rightarrow> ((w', s'), Restarted))"

fun run :: "op list \<Rightarrow> world \<times> store \<Rightarrow> (world \<times> store) \<times> outcome list" where
  "run [] st = (st, [])"
| "run (x # xs) st =
     (let (st', r) = step x st; (st'', rs) = run xs st' in (st'', r # rs))"

text \<open>The ids of the vectors held by a flat index are their positions.\<close>

definition index_ids :: "index_flat \<Rightarrow> int set" where
  "index_ids idx = int ` {0..<length (idx_xb idx)}"

definition metadata_ids :: "store \<Rightarrow> int set" where
  "metadata_ids s = fst ` set (metadata s)"

text \<open>
  The state a store and its files are in between two calls, when the store was first
  constructed without an index file and every embedding added had one row.
\<close>

definition coherent :: "world \<times> store \<Rightarrow> bool" where
  "coherent st =
     (case st of (w, s) \<Rightarrow>
        metadata_ids s = index_ids (index s)
        \<and> next_id s = ntotal (index s)
        \<and> (index_file w = Some (Content (index s))
             \<or> index_file w = None \<and> idx_xb (index s) = [])
        \<and> (case metadata_file w of
              Some (Content doc) \<Rightarrow>
                doc_next_id doc = Some (next_id s)
                \<and> (case doc_metadata doc of
                      Some items \<Rightarrow> fst ` set items = py_str ` metadata_ids s
                    | None \<Rightarrow> False)
            | _ \<Rightarrow> False))"

subsection \<open>Example states\<close>

definition empty_world :: world where
  "empty_world = \<lparr>heap = [], index_file = None, metadata_file = None\<rparr>"

definition fresh_store :: "nat \<Rightarrow> store" where
  "fresh_store dm = \<lparr>dimension = dm, index = IndexFlatL2 dm, metadata = [], next_id = 0\<rparr>"

definition one_vector_store :: store where
  "one_vector_store =
     \<lparr>dimension = 2, index = \<lparr>idx_d = 2, idx_xb = [[1, 0]]\<rparr>,
      metadata = [(0, \<lparr>e_text = Some ''a'', e_audio_path = Some ''a.wav'', e_chunks = Some 0\<rparr>)],
      next_id = 1\<rparr>"

definition two_row_store :: store where
  "two_row_store =
     \<lparr>dimension = 2, index = \<lparr>idx_d = 2, idx_xb = [[1, 0], [0, 1]]\<rparr>,
      metadata = [(0, \<lparr>e_text = Some ''a'', e_audio_path = Some ''a.wav'', e_chunks = Some 0\<rparr>)],
      next_id = 1\<rparr>"

text \<open>An \<^verbatim>\<open>add\<close> whose embedding has exactly one row.\<close>

fun one_row :: "op \<Rightarrow> bool" where
  "one_row (Add v txt audio_path chunks) = (length (rows_of v) = 1)"
| "one_row x = True"




text \<open>A call of \<^verbatim>\<open>add\<close> given by its four arguments.\<close>

definition call_add :: "ndarray \<times> string \<times> string \<times> addr option \<Rightarrow> op" where
  "call_add call = (case call of (v, txt, audio_path, chunks) \<Rightarrow> Add v txt audio_path chunks)"

text \<open>The distance and the id of a search result, as the index returned them.\<close>

definition pair_of :: "result \<Rightarrow> real \<times> int" where
  "pair_of x = (r_distance x, r_id x)"

definition three_vector_store :: store where
  "three_vector_store =
     \<lparr>dimension = 2, index = \<lparr>idx_d = 2, idx_xb = [[1, 0], [0, 1], [1, 0]]\<rparr>,
      metadata = [(0, \<lparr>e_text = Some ''a'', e_audio_path = Some ''a.wav'', e_chunks = Some 0\<rparr>),
                  (1, \<lparr>e_text = Some ''b'', e_audio_path = Some ''b.wav'', e_chunks = Some 1\<rparr>),
                  (2, \<lparr>e_text = Some ''c'', e_audio_path = Some ''c.wav'', e_chunks = Some 2\<rparr>)],
      next_id = 3\<rparr>"

text \<open>A heap in which the caller holds one list of one chunk, at address 0.\<close>

definition chunk_world :: world where
  "chunk_world = \<lparr>heap = [[Chunk (0, 1) ''hi'']], index_file = None, metadata_file = None\<rparr>"




section \<open>Integer keys survive the JSON document\<close>

lemma is_digit_digit_char: "n < 10 \<Longrightarrow> is_digit (digit_char n)"
  by (simp add: is_digit_def digit_char_def)

lemma digit_val_digit_char: "n < 10 \<Longrightarrow> digit_val (digit_char n) = n"
  by (simp add: digit_val_def digit_char_def)

lemma not_space_digit: "is_digit c \<Longrightarrow> \<not> is_space c"
  by (auto simp: is_digit_def is_space_def)

lemma digit_not_sign: "is_digit c \<Longrightarrow> c \<noteq> CHR ''-'' \<and> c \<noteq> CHR ''+'' \<and> c \<noteq> CHR ''_''"
  by (auto simp: is_digit_def)

lemma after_digit_digits:
  "list_all is_digit cs \<Longrightarrow>
     after_digit acc cs = Some (foldl (\<lambda>a c. 10 * a + digit_val c) acc cs)"
  by (induction acc cs rule: after_digit.induct) auto

lemma parse_nat_digits:
  "list_all is_digit cs \<Longrightarrow> cs \<noteq> [] \<Longrightarrow>
     parse_nat cs = Some (foldl (\<lambda>a c. 10 * a + digit_val c) 0 cs)"
  by (cases cs) (auto simp: parse_nat_def after_digit_digits)

lemma str_nat_digits:
  "list_all is_digit (str_nat n) \<and> str_nat n \<noteq> []
     \<and> foldl (\<lambda>a c. 10 * a + digit_val c) 0 (str_nat n) = n"
proof (induction n rule: str_nat.induct)
  case (1 n)
  show ?case
  proof (cases "n < 10")
    case True
    then show ?thesis
      by (simp add: str_nat.simps [of n] is_digit_digit_char digit_val_digit_char)
  next
    case False
    with 1 have ih: "list_all is_digit (str_nat (n div 10))"
      "foldl (\<lambda>a c. 10 * a + digit_val c) 0 (str_nat (n div 10)) = n div 10"
      by simp_all
    from False show ?thesis
      by (simp add: str_nat.simps [of n] ih is_digit_digit_char digit_val_digit_char)
  qed
qed

lemma parse_nat_str_nat: "parse_nat (str_nat n) = Some n"
  using str_nat_digits [of n] by (simp add: parse_nat_digits)

lemma strip_id:
  "s \<noteq> [] \<Longrightarrow> \<not> is_space (hd s) \<Longrightarrow> \<not> is_space (last s) \<Longrightarrow> strip s = s"
proof -
  assume s: "s \<noteq> []" "\<not> is_space (hd s)" "\<not> is_space (last s)"
  have lead: "dropWhile is_space s = s"
    using s(2) by (simp add: dropWhile_eq_self_iff)
  have "hd (rev s) = last s"
    using s(1) by (simp add: hd_rev)
  then have trail: "dropWhile is_space (rev s) = rev s"
    using s(3) by (simp add: dropWhile_eq_self_iff)
  show ?thesis
    by (simp add: strip_def lead trail)
qed

lemma not_space_minus: "\<not> is_space CHR ''-''"
  by (simp add: is_space_def)

lemma py_int_py_str: "py_int (py_str i) = Inr i"
proof -
  have dig: "list_all is_digit (str_nat n)" "str_nat n \<noteq> []" for n
    using str_nat_digits [of n] by simp_all
  have hd_dig: "is_digit (hd (str_nat n))" and last_dig: "is_digit (last (str_nat n))" for n
    using dig [of n] by (auto simp: list_all_iff)
  show ?thesis
  proof (cases "i < 0")
    case True
    let ?s = "CHR ''-'' # str_nat (nat (- i))"
    have "strip ?s = ?s"
      by (rule strip_id) (simp_all add: not_space_minus dig not_space_digit last_dig)
    with True show ?thesis
      by (simp add: py_int_def py_str_def parse_nat_str_nat)
  next
    case False
    let ?s = "str_nat (nat i)"
    have st: "strip ?s = ?s"
      by (rule strip_id) (simp_all add: dig not_space_digit hd_dig last_dig)
    obtain c cs where cs: "?s = c # cs"
      using dig(2) [of "nat i"] by (cases ?s) auto
    then have "is_digit c"
      using hd_dig [of "nat i"] by simp
    then have "c \<noteq> CHR ''-''" "c \<noteq> CHR ''+''"
      using digit_not_sign by blast+
    moreover have "parse_nat (c # cs) = Some (nat i)"
      using parse_nat_str_nat [of "nat i"] cs by simp
    ultimately show ?thesis
      using False st cs by (simp add: py_int_def py_str_def)
  qed
qed

section \<open>Loading the metadata document\<close>

lemma py_int_error: "py_int k = Inl e \<Longrightarrow> e = ValueError"
  by (auto simp: py_int_def Let_def split: option.splits)

lemma load_items_error: "load_items h acc items = Inl e \<Longrightarrow> e = ValueError"
proof (induction h acc items rule: load_items.induct)
  case (1 h acc)
  then show ?case by simp
next
  case (2 h acc k j items)
  then show ?case
    by (auto split: sum.splits prod.splits dest: py_int_error)
qed

lemma load_items_keys:
  "load_items h acc items = Inr (h', m) \<Longrightarrow>
     fst ` set m = fst ` set acc \<union> {i. \<exists>k \<in> fst ` set items. py_int k = Inr i}"
proof (induction h acc items rule: load_items.induct)
  case (1 h acc)
  then show ?case by simp
next
  case (2 h acc k j items)
  then show ?case
    by (auto split: sum.splits prod.splits simp: AList.dom_update)
qed

lemma load_items_succeeds:
  "\<forall>k \<in> fst ` set items. \<exists>i. py_int k = Inr i \<Longrightarrow>
     \<exists>h' m. load_items h acc items = Inr (h', m)"
proof (induction h acc items rule: load_items.induct)
  case (1 h acc)
  then show ?case by simp
next
  case (2 h acc k j items)
  then show ?case
    by (auto split: sum.splits prod.splits)
qed

lemma load_metadata_fields:
  "load_metadata s w = Inr (w', s') \<Longrightarrow>
     index s' = index s \<and> dimension s' = dimension s
     \<and> index_file w' = index_file w \<and> metadata_file w' = metadata_file w"
  by (auto simp: load_metadata_def split: option.splits disk_file.splits sum.splits)

lemma load_metadata_errors:
  "load_metadata s w = Inl e \<Longrightarrow> e = JSONDecodeError \<or> e = ValueError"
  by (auto simp: load_metadata_def split: option.splits disk_file.splits sum.splits
      dest: load_items_error)


section \<open>Metadata ids and index ids\<close>

lemma index_ids_ntotal: "index_ids idx = {0..<ntotal idx}"
  by (simp add: index_ids_def ntotal_def image_int_atLeastLessThan)

lemma fresh_construct:
  "index_file w = None \<Longrightarrow>
     FAISSVectorStore dm w = Inr (save_metadata (fresh_store dm) w, fresh_store dm)"
  by (simp add: FAISSVectorStore_def fresh_store_def Let_def)

lemma coherent_fresh:
  "index_file w = None \<Longrightarrow> coherent (save_metadata (fresh_store dm) w, fresh_store dm)"
  by (simp add: coherent_def save_metadata_def fresh_store_def metadata_ids_def index_ids_def
      IndexFlatL2_def ntotal_def)

lemma add_result:
  assumes "add s w v txt audio_path chunks = (v', Inr (w', s', i))"
  shows "i = next_id s
     \<and> next_id s' = next_id s + 1
     \<and> dimension s' = dimension s
     \<and> ncols v = idx_d (index s)
     \<and> index s' = (index s)\<lparr>idx_xb := idx_xb (index s) @ normalize_L2 (rows_of v)\<rparr>
     \<and> metadata_ids s' = insert (next_id s) (metadata_ids s)
     \<and> index_file w' = Some (Content (index s'))
     \<and> metadata_file w' = Some (Content
          \<lparr>doc_next_id = Some (next_id s'),
           doc_metadata = Some (map (\<lambda>(k, e). (py_str k, dump_entry (heap w') e)) (metadata s'))\<rparr>)"
proof -
  obtain h' a where ch: "chunks_or_empty (heap w) chunks = (h', a)"
    by (cases "chunks_or_empty (heap w) chunks")
  from assms have ok: "ncols v = idx_d (index s)"
    by (auto simp: add_def Let_def index_add_def split: if_splits prod.splits)
  let ?e = "\<lparr>e_text = Some txt, e_audio_path = Some audio_path, e_chunks = Some a\<rparr>"
  let ?s' = "s\<lparr>index := (index s)\<lparr>idx_xb := idx_xb (index s) @ normalize_L2 (rows_of v)\<rparr>,
                metadata := AList.update (next_id s) ?e (metadata s),
                next_id := next_id s + 1\<rparr>"
  from assms ok ch have s': "s' = ?s'" and i: "i = next_id s"
    and w': "w' = save_metadata ?s' (save_index ?s' (w\<lparr>heap := h'\<rparr>))"
    by (auto simp add: add_def Let_def index_add_def)
  show ?thesis
    unfolding s' w' i
    by (simp add: ok metadata_ids_def AList.dom_update save_metadata_def save_index_def)
qed

lemma dumped_keys:
  "fst ` (\<lambda>(k, e). (py_str k, f e)) ` A = py_str ` fst ` A"
  by force

lemma add_coherent:
  assumes "coherent (w, s)" and "length (rows_of v) = 1"
    and "add s w v txt audio_path chunks = (v', Inr (w', s', i))"
  shows "coherent (w', s')"
proof -
  note r = add_result [OF assms(3)]
  from assms(1) have ids: "metadata_ids s = index_ids (index s)" and nx: "next_id s = ntotal (index s)"
    by (simp_all add: coherent_def)
  have len: "length (idx_xb (index s')) = Suc (length (idx_xb (index s)))"
    using r assms(2) by (simp add: normalize_L2_def)
  have "metadata_ids s' = index_ids (index s')"
    using r ids nx len by (auto simp: index_ids_ntotal ntotal_def)
  moreover have "next_id s' = ntotal (index s')"
    using r nx len by (simp add: ntotal_def)
  ultimately show ?thesis
    using r by (simp add: coherent_def dumped_keys metadata_ids_def)
qed

lemma search_files:
  "search s w q k = (q', Inr (w', results)) \<Longrightarrow>
     index_file w' = index_file w \<and> metadata_file w' = metadata_file w"
  by (auto simp: search_def Let_def split: if_splits sum.splits prod.splits list.splits)

lemma coherent_files:
  "coherent (w, s) \<Longrightarrow> index_file w' = index_file w \<Longrightarrow> metadata_file w' = metadata_file w
     \<Longrightarrow> coherent (w', s)"
  by (simp add: coherent_def)

lemma restart_coherent:
  assumes "coherent (w, s)"
  shows "\<exists>w' s'. FAISSVectorStore dm w = Inr (w', s') \<and> coherent (w', s')"
proof (cases "index_file w")
  case None
  then show ?thesis
    using fresh_construct [of w dm] coherent_fresh [of w dm] by blast
next
  case (Some f)
  with assms have f: "f = Content (index s)"
    by (auto simp: coherent_def)
  from assms obtain doc items where doc: "metadata_file w = Some (Content doc)"
    "doc_next_id doc = Some (next_id s)" "doc_metadata doc = Some items"
    "fst ` set items = py_str ` metadata_ids s"
    by (auto simp: coherent_def split: option.splits disk_file.splits)
  have "\<forall>k \<in> fst ` set items. \<exists>i. py_int k = Inr i"
    using doc(4) py_int_py_str by auto
  then obtain h' m where lm: "load_items (heap w) [] items = Inr (h', m)"
    using load_items_succeeds by blast
  have keys: "fst ` set m = metadata_ids s"
    using load_items_keys [OF lm] doc(4) by (auto simp: py_int_py_str)
  let ?s' = "\<lparr>dimension = dm, index = index s, metadata = m, next_id = next_id s\<rparr>"
  have "FAISSVectorStore dm w = Inr (w\<lparr>heap := h'\<rparr>, ?s')"
    using Some f doc lm
    by (simp add: FAISSVectorStore_def read_index_def load_metadata_def Let_def)
  moreover have "coherent (w\<lparr>heap := h'\<rparr>, ?s')"
    using assms keys doc Some f by (simp add: coherent_def metadata_ids_def)
  ultimately show ?thesis by blast
qed

lemma step_coherent:
  assumes "coherent st" and "\<And>v t p c. x = Add v t p c \<Longrightarrow> length (rows_of v) = 1"
  shows "coherent (fst (step x st))"
proof (cases st)
  case (Pair w s)
  show ?thesis
  proof (cases x)
    case (Add v t p c)
    obtain v' r where a: "add s w v t p c = (v', r)"
      by (cases "add s w v t p c")
    show ?thesis
    proof (cases r)
      case (Inl e)
      with a Add Pair assms(1) show ?thesis by simp
    next
      case (Inr res)
      then obtain w' s' i where "r = Inr (w', s', i)"
        by (cases res) auto
      with a Add Pair assms add_coherent [of w s v t p c v' w' s' i] show ?thesis
        by simp
    qed
  next
    case (Search q k)
    obtain q' r where a: "search s w q k = (q', r)"
      by (cases "search s w q k")
    show ?thesis
    proof (cases r)
      case (Inl e)
      with a Search Pair assms(1) show ?thesis by simp
    next
      case (Inr res)
      then obtain w' rs where "r = Inr (w', rs)"
        by (cases res) auto
      with a Search Pair assms(1) search_files [of s w q k q' w' rs] show ?thesis
        by (auto intro: coherent_files)
    qed
  next
    case (Restart dm)
    with Pair assms(1) restart_coherent [of w s dm] show ?thesis
      by auto
  qed
qed

lemma run_coherent:
  "coherent st \<Longrightarrow> \<forall>v t p c. Add v t p c \<in> set ops \<longrightarrow> length (rows_of v) = 1 \<Longrightarrow>
     coherent (fst (run ops st))"
proof (induction ops arbitrary: st)
  case Nil
  then show ?case by simp
next
  case (Cons x xs)
  have "coherent (fst (step x st))"
    using Cons.prems by (intro step_coherent) auto
  then have "coherent (fst (run xs (fst (step x st))))"
    using Cons.prems by (intro Cons.IH) auto
  then show ?case
    by (simp add: split_beta Let_def)
qed

section \<open>C2: the ids of the metadata and of the index\<close>

lemma renorm_unit2 [simp]: "renorm_L2 [1, 0] = [1, 0]" "renorm_L2 [0, 1] = [0, 1]"
  by (simp_all add: renorm_L2_def fvec_norm_L2sqr_def)

text \<open>
  Claim C2, as stated, fails. An embedding of two rows puts two vectors into the index and
  one record into the metadata; a store constructed from an index file without a metadata
  file holds the vectors of the file and no record.
\<close>

theorem ids_diverge_counterexample:
  "snd (fst (step (Add (Array2 2 [[1, 0], [0, 1]]) ''a'' ''a.wav'' None)
               (empty_world, fresh_store 2))) = two_row_store
   \<and> metadata_ids two_row_store = {0}
   \<and> index_ids (index two_row_store) = {0, 1}
   \<and> FAISSVectorStore 2 (empty_world\<lparr>index_file := Some (Content (index one_vector_store))\<rparr>)
       = Inr (empty_world\<lparr>index_file := Some (Content (index one_vector_store))\<rparr>,
              \<lparr>dimension = 2, index = index one_vector_store, metadata = [], next_id = 0\<rparr>)
   \<and> index_ids (index one_vector_store) = {0}"
proof (intro conjI)
  show "snd (fst (step (Add (Array2 2 [[1, 0], [0, 1]]) ''a'' ''a.wav'' None)
               (empty_world, fresh_store 2))) = two_row_store"
    by (simp add: add_def Let_def index_add_def fresh_store_def IndexFlatL2_def normalize_L2_def
        chunks_or_empty_def alloc_def empty_world_def two_row_store_def)
  show "metadata_ids two_row_store = {0}"
    by (simp add: metadata_ids_def two_row_store_def)
  show "index_ids (index two_row_store) = {0, 1}"
    by (auto simp add: index_ids_def two_row_store_def)
  show "FAISSVectorStore 2 (empty_world\<lparr>index_file := Some (Content (index one_vector_store))\<rparr>)
       = Inr (empty_world\<lparr>index_file := Some (Content (index one_vector_store))\<rparr>,
              \<lparr>dimension = 2, index = index one_vector_store, metadata = [], next_id = 0\<rparr>)"
    by (simp add: FAISSVectorStore_def read_index_def load_metadata_def Let_def empty_world_def)
  show "index_ids (index one_vector_store) = {0}"
    by (auto simp add: index_ids_def one_vector_store_def)
qed

text \<open>
  Claim C2, amended. Let the store be constructed while no index file exists, and let any
  sequence of calls follow: \<^verbatim>\<open>add\<close> with an embedding of exactly one row (a one-dimensional
  array, or a two-dimensional array with one row), \<^verbatim>\<open>search\<close>, and construction again
  from the files left behind; a call that raises counts as not made. Then the ids of the
  metadata records are the ids of the stored vectors, \<open>0, \<dots>, count - 1\<close>. The theorem
  holds for every sequence, hence after every call of a sequence.
\<close>

theorem ids_coincide:
  assumes "index_file w = None" and "list_all one_row ops"
  shows "\<exists>w0 s0. FAISSVectorStore dm w = Inr (w0, s0)
           \<and> metadata_ids (snd (fst (run ops (w0, s0))))
               = index_ids (index (snd (fst (run ops (w0, s0)))))
           \<and> index_ids (index (snd (fst (run ops (w0, s0)))))
               = {0..<ntotal (index (snd (fst (run ops (w0, s0)))))}"
proof -
  let ?st = "(save_metadata (fresh_store dm) w, fresh_store dm)"
  have one: "\<forall>v t p c. Add v t p c \<in> set ops \<longrightarrow> length (rows_of v) = 1"
    using assms(2) by (auto simp: list_all_iff)
  have "coherent (fst (run ops ?st))"
    using coherent_fresh [OF assms(1)] one by (rule run_coherent)
  then have "metadata_ids (snd (fst (run ops ?st))) = index_ids (index (snd (fst (run ops ?st))))"
    by (simp add: coherent_def split_beta)
  then show ?thesis
    using fresh_construct [OF assms(1), of dm] index_ids_ntotal by blast
qed

theorem ids_coincide_witness:
  "\<exists>w0 s0. FAISSVectorStore 2 empty_world = Inr (w0, s0)
     \<and> metadata_ids (snd (fst (run [Add (Array1 [1, 0]) ''a'' ''a.wav'' None, Restart 2,
                                     Add (Array2 2 [[0, 1]]) ''b'' ''b.wav'' None] (w0, s0))))
         = index_ids (index (snd (fst (run [Add (Array1 [1, 0]) ''a'' ''a.wav'' None, Restart 2,
                                     Add (Array2 2 [[0, 1]]) ''b'' ''b.wav'' None] (w0, s0)))))"
proof -
  have "index_file empty_world = None"
    by (simp add: empty_world_def)
  moreover have "list_all one_row [Add (Array1 [1, 0]) ''a'' ''a.wav'' None, Restart 2,
      Add (Array2 2 [[0, 1]]) ''b'' ''b.wav'' None]"
    by simp
  ultimately show ?thesis
    using ids_coincide [of empty_world "[Add (Array1 [1, 0]) ''a'' ''a.wav'' None, Restart 2,
      Add (Array2 2 [[0, 1]]) ''b'' ''b.wav'' None]" 2]
    by blast
qed

section \<open>C1: vectors of another length\<close>

lemma renorm_100: "renorm_L2 [1, 0, 0] = [1, 0, 0]"
  by (simp add: renorm_L2_def fvec_norm_L2sqr_def)

text \<open>
  Claim C1, as stated, fails for \<^verbatim>\<open>search\<close>: line 95 clamps \<open>k\<close> and line 96 returns the
  empty list before the index is asked, so a query of length 3 against an empty store of
  dimension 2 returns \<open>[]\<close> and raises nothing.
\<close>

theorem search_wrong_dimension_counterexample:
  "FAISSVectorStore 2 empty_world = Inr (save_metadata (fresh_store 2) empty_world, fresh_store 2)
   \<and> search (fresh_store 2) (save_metadata (fresh_store 2) empty_world) (Array1 [1, 0, 0]) 5
       = (Array1 [1, 0, 0], Inr (save_metadata (fresh_store 2) empty_world, []))"
  by (simp add: FAISSVectorStore_def empty_world_def fresh_store_def search_def normalize_L2_def
      renorm_100 ntotal_def IndexFlatL2_def Let_def)

text \<open>
  Claim C1, amended. Let the column count of \<open>v\<close> differ from the dimension of the index
  (which is the dimension of the store when the store was constructed without an index
  file). Then \<^verbatim>\<open>add\<close> raises the assertion error of the index and the store, the files and
  the heap stay as they were; \<^verbatim>\<open>search\<close> raises the same error when \<open>min k count\<close> is
  not zero, and returns the empty list when it is zero. In each case the caller's array
  has been normalised in place.
\<close>

theorem wrong_dimension:
  assumes "ncols v \<noteq> idx_d (index s)"
  shows "add s w v txt audio_path chunks
           = (written_back v (normalize_L2 (rows_of v)), Inl AssertionError)
         \<and> step (Add v txt audio_path chunks) (w, s) = ((w, s), Raised AssertionError)
         \<and> (min k (ntotal (index s)) \<noteq> 0 \<longrightarrow>
              search s w v k = (written_back v (normalize_L2 (rows_of v)), Inl AssertionError))
         \<and> (min k (ntotal (index s)) = 0 \<longrightarrow>
              search s w v k = (written_back v (normalize_L2 (rows_of v)), Inr (w, [])))"
  using assms by (simp add: add_def search_def index_add_def index_search_def Let_def)

theorem wrong_dimension_witness:
  "ncols (Array1 [1, 0, 0]) \<noteq> idx_d (index one_vector_store)
   \<and> min 1 (ntotal (index one_vector_store)) \<noteq> 0
   \<and> add one_vector_store empty_world (Array1 [1, 0, 0]) ''b'' ''b.wav'' None
       = (Array1 [1, 0, 0], Inl AssertionError)
   \<and> search one_vector_store empty_world (Array1 [1, 0, 0]) 1
       = (Array1 [1, 0, 0], Inl AssertionError)"
  using wrong_dimension [of "Array1 [1, 0, 0]" one_vector_store empty_world "''b''" "''b.wav''" None 1]
  by (simp add: one_vector_store_def normalize_L2_def renorm_100 ntotal_def)

section \<open>C4: the index file at startup\<close>

text \<open>
  Claim C4, as stated, fails: an index file of dimension 3 is loaded by a store that was
  asked for dimension 2, and no error is raised.
\<close>

theorem load_ignores_requested_dimension_counterexample:
  "FAISSVectorStore 2 (empty_world\<lparr>index_file := Some (Content (IndexFlatL2 3))\<rparr>)
     = Inr (empty_world\<lparr>index_file := Some (Content (IndexFlatL2 3))\<rparr>,
            \<lparr>dimension = 2, index = IndexFlatL2 3, metadata = [], next_id = 0\<rparr>)
   \<and> idx_d (IndexFlatL2 3) \<noteq> 2"
  by (simp add: FAISSVectorStore_def empty_world_def load_metadata_def read_index_def
      IndexFlatL2_def Let_def)

text \<open>
  Claim C4, amended. On startup, an index file that exists and is readable is loaded as
  it is: its dimension is not compared with the requested one, the store keeps the
  requested dimension in its own field and the dimension of the file in its index, and
  construction can then fail only on the metadata document. An unreadable index file
  makes the reader raise. If the index file is absent, an empty index of the requested
  dimension is created.
\<close>

theorem startup_index:
  "(index_file w = None \<longrightarrow>
      (\<exists>w'. FAISSVectorStore dm w = Inr (w', fresh_store dm))
      \<and> idx_d (index (fresh_store dm)) = dm \<and> ntotal (index (fresh_store dm)) = 0)
   \<and> (index_file w = Some Unreadable \<longrightarrow> FAISSVectorStore dm w = Inl RuntimeError)
   \<and> (index_file w = Some (Content idx) \<longrightarrow>
      (case FAISSVectorStore dm w of
         Inr (w', s) \<Rightarrow> index s = idx \<and> dimension s = dm
       | Inl e \<Rightarrow> e = JSONDecodeError \<or> e = ValueError))
   \<and> (index_file w = Some (Content idx) \<and> metadata_file w = None \<longrightarrow>
      FAISSVectorStore dm w = Inr (w, \<lparr>dimension = dm, index = idx, metadata = [], next_id = 0\<rparr>))"
proof (intro conjI impI)
  assume "index_file w = None"
  then show "\<exists>w'. FAISSVectorStore dm w = Inr (w', fresh_store dm)"
    by (simp add: FAISSVectorStore_def fresh_store_def Let_def)
next
  show "idx_d (index (fresh_store dm)) = dm"
    by (simp add: fresh_store_def IndexFlatL2_def)
next
  show "ntotal (index (fresh_store dm)) = 0"
    by (simp add: fresh_store_def IndexFlatL2_def ntotal_def)
next
  assume "index_file w = Some Unreadable"
  then show "FAISSVectorStore dm w = Inl RuntimeError"
    by (simp add: FAISSVectorStore_def read_index_def Let_def)
next
  assume "index_file w = Some (Content idx)"
  then show "case FAISSVectorStore dm w of
         Inr (w', s) \<Rightarrow> index s = idx \<and> dimension s = dm
       | Inl e \<Rightarrow> e = JSONDecodeError \<or> e = ValueError"
    by (auto simp: FAISSVectorStore_def read_index_def Let_def split: sum.splits
        dest: load_metadata_fields load_metadata_errors)
next
  assume "index_file w = Some (Content idx) \<and> metadata_file w = None"
  then show "FAISSVectorStore dm w
      = Inr (w, \<lparr>dimension = dm, index = idx, metadata = [], next_id = 0\<rparr>)"
    by (simp add: FAISSVectorStore_def read_index_def Let_def load_metadata_def)
qed

theorem startup_index_witness:
  "index_file empty_world = None
   \<and> (\<exists>w'. FAISSVectorStore 4 empty_world = Inr (w', fresh_store 4))
   \<and> index_file (empty_world\<lparr>index_file := Some (Content (index one_vector_store))\<rparr>)
       = Some (Content (index one_vector_store))
   \<and> metadata_file (empty_world\<lparr>index_file := Some (Content (index one_vector_store))\<rparr>) = None
   \<and> FAISSVectorStore 4 (empty_world\<lparr>index_file := Some (Content (index one_vector_store))\<rparr>)
       = Inr (empty_world\<lparr>index_file := Some (Content (index one_vector_store))\<rparr>,
              \<lparr>dimension = 4, index = index one_vector_store, metadata = [], next_id = 0\<rparr>)"
  using startup_index [of empty_world 4 "index one_vector_store"]
    startup_index [of "empty_world\<lparr>index_file := Some (Content (index one_vector_store))\<rparr>" 4
      "index one_vector_store"]
  by (simp add: empty_world_def)

section \<open>C5: the metadata document at startup\<close>


lemma load_items_accepts:
  "list_all (\<lambda>kj. \<not> isl (py_int (fst kj))) items \<Longrightarrow> \<exists>h' m. load_items h acc items = Inr (h', m)"
proof (induction h acc items rule: load_items.induct)
  case (1 h acc)
  then show ?case by simp
next
  case (2 h acc k j items)
  then show ?case
    by (auto split: sum.splits prod.splits)
qed








section \<open>C6: ids in call order\<close>

lemma add_succeeds:
  assumes "ncols v = idx_d (index s)"
  shows "\<exists>w' s'. add s w v txt audio_path chunks
             = (written_back v (normalize_L2 (rows_of v)), Inr (w', s', next_id s))
           \<and> next_id s' = next_id s + 1 \<and> idx_d (index s') = idx_d (index s)"
proof -
  obtain h' a where "chunks_or_empty (heap w) chunks = (h', a)"
    by (cases "chunks_or_empty (heap w) chunks")
  with assms show ?thesis
    by (simp add: add_def index_add_def Let_def)
qed

lemma run_adds:
  "list_all (\<lambda>call. ncols (fst call) = idx_d (index s)) calls \<Longrightarrow>
     snd (run (map call_add calls) (w, s))
       = map (\<lambda>i. Added (next_id s + int i)) [0..<length calls]"
proof (induction calls arbitrary: w s)
  case Nil
  then show ?case by simp
next
  case (Cons call calls)
  obtain v tx audio_path chunks where call: "call = (v, tx, audio_path, chunks)"
    by (cases call) auto
  with Cons.prems have dm: "ncols v = idx_d (index s)"
    by simp
  from add_succeeds [OF dm] obtain w' s' where
    a: "add s w v tx audio_path chunks
          = (written_back v (normalize_L2 (rows_of v)), Inr (w', s', next_id s))"
    and nx: "next_id s' = next_id s + 1" and d: "idx_d (index s') = idx_d (index s)"
    by blast
  have st: "step (call_add call) (w, s) = ((w', s'), Added (next_id s))"
    using a call by (simp add: call_add_def)
  have "list_all (\<lambda>call. ncols (fst call) = idx_d (index s')) calls"
    using Cons.prems d by simp
  then have rest: "snd (run (map call_add calls) (w', s'))
      = map (\<lambda>i. Added (next_id s' + int i)) [0..<length calls]"
    by (rule Cons.IH)
  have "snd (run (map call_add (call # calls)) (w, s))
      = Added (next_id s) # snd (run (map call_add calls) (w', s'))"
    using st by (simp add: split_beta)
  also have "\<dots> = map (\<lambda>i. Added (next_id s + int i)) [0..<length (call # calls)]"
    unfolding rest nx by (simp add: map_upt_Suc add.assoc del: upt_Suc)
  finally show ?case .
qed

text \<open>
  Claim C6. A store constructed without an index file, then \<^verbatim>\<open>add\<close> called \<open>n\<close> times, each
  time with an embedding whose column count is the dimension of the store: every call
  returns, and the ids returned are \<open>0, 1, \<dots>, n - 1\<close> in call order.
\<close>

theorem add_ids_in_call_order:
  assumes "index_file w = None" and "list_all (\<lambda>call. ncols (fst call) = dm) calls"
  shows "\<exists>w0 s0. FAISSVectorStore dm w = Inr (w0, s0)
           \<and> snd (run (map call_add calls) (w0, s0)) = map (\<lambda>i. Added (int i)) [0..<length calls]"
proof -
  have "list_all (\<lambda>call. ncols (fst call) = idx_d (index (fresh_store dm))) calls"
    using assms(2) by (simp add: fresh_store_def IndexFlatL2_def)
  then have "snd (run (map call_add calls) (save_metadata (fresh_store dm) w, fresh_store dm))
      = map (\<lambda>i. Added (next_id (fresh_store dm) + int i)) [0..<length calls]"
    by (rule run_adds)
  then show ?thesis
    using fresh_construct [OF assms(1), of dm] by (simp add: fresh_store_def)
qed

theorem add_ids_in_call_order_witness:
  "\<exists>w0 s0. FAISSVectorStore 2 empty_world = Inr (w0, s0)
     \<and> snd (run [Add (Array1 [1, 0]) ''a'' ''a.wav'' None,
                 Add (Array1 [0, 1]) ''b'' ''b.wav'' None,
                 Add (Array1 [3, 4]) ''c'' ''c.wav'' None] (w0, s0))
       = [Added 0, Added 1, Added 2]"
proof -
  have "index_file empty_world = None"
    by (simp add: empty_world_def)
  moreover have "list_all (\<lambda>call. ncols (fst call) = 2)
      [(Array1 [1, 0], ''a'', ''a.wav'', None), (Array1 [0, 1], ''b'', ''b.wav'', None),
       (Array1 [3, 4], ''c'', ''c.wav'', None)]"
    by simp
  ultimately show ?thesis
    using add_ids_in_call_order [of empty_world 2
      "[(Array1 [1, 0], ''a'', ''a.wav'', None), (Array1 [0, 1], ''b'', ''b.wav'', None),
        (Array1 [3, 4], ''c'', ''c.wav'', None)]"]
    by (simp add: call_add_def upt_rec)
qed

section \<open>What search returns\<close>

lemma format_results_pairs:
  "map pair_of (snd (format_results m h acc pairs))
     = map pair_of acc @ filter (\<lambda>p. snd p \<noteq> -1) pairs"
proof (induction m h acc pairs rule: format_results.induct)
  case (1 m h results)
  then show ?case by simp
next
  case (2 m h results dis i rest)
  show ?case
  proof (cases "i = -1")
    case True
    with 2 show ?thesis by simp
  next
    case False
    with 2 show ?thesis
      by (simp add: Let_def split_beta pair_of_def)
  qed
qed

lemma scores_length [simp]: "length (scores idx q) = length (idx_xb idx)"
  by (simp add: scores_def)

lemma scores_nth:
  "n < length (idx_xb idx) \<Longrightarrow> scores idx q ! n = (fvec_L2sqr q (idx_xb idx ! n), int n)"
  by (simp add: scores_def)

lemma scores_snd: "map snd (scores idx q) = map int [0..<length (idx_xb idx)]"
  by (simp add: scores_def)

lemma scores_distinct: "distinct (scores idx q)"
proof -
  have "distinct (map snd (scores idx q))"
    by (simp add: scores_snd distinct_map inj_on_def)
  then show ?thesis
    by (rule distinct_map [THEN iffD1, THEN conjunct1])
qed

lemma scores_member:
  "p \<in> set (scores idx q) \<Longrightarrow>
     0 \<le> snd p \<and> snd p < ntotal idx \<and> fst p = fvec_L2sqr q (idx_xb idx ! nat (snd p))"
  by (auto simp: in_set_conv_nth scores_nth ntotal_def)

lemma knn_enough:
  "k \<le> length (idx_xb idx) \<Longrightarrow> knn idx q k = take k (sort (scores idx q))"
  by (simp add: knn_def Let_def)

lemma search_pairs:
  assumes "ncols q = idx_d (index s)" and "rows_of q = r # rest" and "0 \<le> k"
  shows "\<exists>w' rs. search s w q k = (written_back q (normalize_L2 (rows_of q)), Inr (w', rs))
           \<and> map pair_of rs
               = take (nat (min k (ntotal (index s)))) (sort (scores (index s) (renorm_L2 r)))"
proof (cases "min k (ntotal (index s)) = 0")
  case True
  then show ?thesis
    by (simp add: search_def Let_def)
next
  case False
  let ?k = "min k (ntotal (index s))"
  let ?best = "take (nat ?k) (sort (scores (index s) (renorm_L2 r)))"
  from False assms(3) have pos: "0 < ?k"
    by (simp add: ntotal_def min_def split: if_splits)
  have le: "nat ?k \<le> length (idx_xb (index s))"
    by (simp add: ntotal_def nat_le_iff)
  have "\<forall>p \<in> set ?best. snd p \<noteq> -1"
    using scores_member [of _ "index s" "renorm_L2 r"] by (fastforce dest: in_set_takeD)
  then have keep: "filter (\<lambda>p. snd p \<noteq> -1) ?best = ?best"
    by (simp add: filter_id_conv)
  obtain h' rs where fr: "format_results (metadata s) (heap w) [] ?best = (h', rs)"
    by (cases "format_results (metadata s) (heap w) [] ?best")
  have "map pair_of rs = ?best"
    using format_results_pairs [of "metadata s" "heap w" "[]" ?best] fr keep by simp
  moreover have "search s w q k
      = (written_back q (normalize_L2 (rows_of q)), Inr (w\<lparr>heap := h'\<rparr>, rs))"
    using False pos assms(1,2) fr le
    by (auto simp add: search_def Let_def index_search_def normalize_L2_def knn_enough
        zip_map_fst_snd min_le_iff_disj)
  ultimately show ?thesis by blast
qed

section \<open>C7: the number of results\<close>

text \<open>
  Claim C7. For a query whose column count is the dimension of the index (a vector, or a
  two-dimensional array with at least one row) and every \<open>k \<ge> 0\<close>, \<^verbatim>\<open>search\<close> returns,
  and it returns exactly \<open>min k count\<close> results: none when the store is empty, all when
  \<open>k\<close> exceeds the count. No label \<open>-1\<close> reaches line 104, since the index is asked for
  at most as many neighbours as it holds.
\<close>

theorem search_returns_min_k:
  assumes "ncols q = idx_d (index s)" and "rows_of q \<noteq> []" and "0 \<le> k"
  shows "\<exists>w' rs. search s w q k = (written_back q (normalize_L2 (rows_of q)), Inr (w', rs))
           \<and> int (length rs) = min k (ntotal (index s))"
proof -
  from assms(2) obtain r rest where rows: "rows_of q = r # rest"
    by (cases "rows_of q") auto
  from search_pairs [OF assms(1) rows assms(3)] obtain w' rs where
    s: "search s w q k = (written_back q (normalize_L2 (rows_of q)), Inr (w', rs))"
    and p: "map pair_of rs
      = take (nat (min k (ntotal (index s)))) (sort (scores (index s) (renorm_L2 r)))"
    by blast
  have "length rs = length (map pair_of rs)"
    by simp
  also have "\<dots> = nat (min k (ntotal (index s)))"
    unfolding p by (simp add: ntotal_def nat_le_iff)
  finally have "int (length rs) = min k (ntotal (index s))"
    using assms(3) by (simp add: ntotal_def)
  with s show ?thesis by blast
qed

theorem search_returns_min_k_witness:
  "\<exists>w' rs. search three_vector_store empty_world (Array1 [1, 0]) 5
              = (Array1 [1, 0], Inr (w', rs))
     \<and> int (length rs) = 3"
  using search_returns_min_k [of "Array1 [1, 0]" three_vector_store 5 empty_world]
  by (simp add: three_vector_store_def normalize_L2_def ntotal_def renorm_L2_def
      fvec_norm_L2sqr_def)

section \<open>C8: nearest first, lower id first among equals\<close>

lemma sorted_map_fst: "sorted (xs :: (real \<times> int) list) \<Longrightarrow> sorted (map fst xs)"
  by (induction xs) (auto simp: less_eq_prod_def)

text \<open>
  Claim C8. For a query whose first row is \<open>r\<close>, every result carries the id of a stored
  vector and the squared Euclidean distance from the normalised \<open>r\<close> to that vector; the
  distances ascend; of two results at equal distance the one with the lower id comes
  first; no id is returned twice; and every stored vector that is not returned is farther
  than each result, or as far and of a higher id. The order is the one the index returns
  (the spec's VectorIndex): \<^verbatim>\<open>search\<close> keeps it.
\<close>

theorem search_nearest_first:
  assumes "ncols q = idx_d (index s)" and "rows_of q = r # rest" and "0 \<le> k"
  shows "\<exists>w' rs. search s w q k = (written_back q (normalize_L2 (rows_of q)), Inr (w', rs))
     \<and> int (length rs) = min k (ntotal (index s))
     \<and> (\<forall>x \<in> set rs. 0 \<le> r_id x \<and> r_id x < ntotal (index s)
           \<and> r_distance x = fvec_L2sqr (renorm_L2 r) (idx_xb (index s) ! nat (r_id x)))
     \<and> sorted (map r_distance rs)
     \<and> (\<forall>i j. i < j \<and> j < length rs \<and> r_distance (rs ! i) = r_distance (rs ! j)
           \<longrightarrow> r_id (rs ! i) < r_id (rs ! j))
     \<and> distinct (map r_id rs)
     \<and> (\<forall>n < length (idx_xb (index s)). int n \<notin> r_id ` set rs \<longrightarrow>
           (\<forall>x \<in> set rs.
              r_distance x < fvec_L2sqr (renorm_L2 r) (idx_xb (index s) ! n)
              \<or> r_distance x = fvec_L2sqr (renorm_L2 r) (idx_xb (index s) ! n) \<and> r_id x < int n))"
proof -
  let ?S = "scores (index s) (renorm_L2 r)"
  let ?n = "nat (min k (ntotal (index s)))"
  let ?P = "take ?n (sort ?S)"
  let ?D = "\<lambda>n. fvec_L2sqr (renorm_L2 r) (idx_xb (index s) ! n)"
  from search_pairs [OF assms] obtain w' rs where
    s: "search s w q k = (written_back q (normalize_L2 (rows_of q)), Inr (w', rs))"
    and p: "map pair_of rs = ?P"
    by blast
  have len: "length rs = ?n"
  proof -
    have "length rs = length (map pair_of rs)" by simp
    also have "\<dots> = ?n" unfolding p by (simp add: ntotal_def nat_le_iff)
    finally show ?thesis .
  qed
  then have count: "int (length rs) = min k (ntotal (index s))"
    using assms(3) by (simp add: ntotal_def)
  have nth: "pair_of (rs ! i) = ?P ! i" if "i < length rs" for i
    using that p by (metis nth_map)
  have mem: "pair_of x \<in> set ?P" if "x \<in> set rs" for x
    using that p by (metis image_eqI set_map)
  have sortedP: "sorted ?P"
    by simp
  have distinctP: "distinct ?P"
    by (simp add: scores_distinct)
  have members: "\<forall>x \<in> set rs. 0 \<le> r_id x \<and> r_id x < ntotal (index s)
           \<and> r_distance x = ?D (nat (r_id x))"
  proof
    fix x assume "x \<in> set rs"
    then have "pair_of x \<in> set ?S"
      using mem [of x] by (auto dest: in_set_takeD)
    from scores_member [OF this] show "0 \<le> r_id x \<and> r_id x < ntotal (index s)
           \<and> r_distance x = ?D (nat (r_id x))"
      by (simp add: pair_of_def)
  qed
  have "sorted (map fst (map pair_of rs))"
    unfolding p using sortedP by (rule sorted_map_fst)
  then have ascending: "sorted (map r_distance rs)"
    by (simp add: pair_of_def comp_def)
  have ties: "\<forall>i j. i < j \<and> j < length rs \<and> r_distance (rs ! i) = r_distance (rs ! j)
           \<longrightarrow> r_id (rs ! i) < r_id (rs ! j)"
  proof (intro allI impI)
    fix i j assume a: "i < j \<and> j < length rs \<and> r_distance (rs ! i) = r_distance (rs ! j)"
    have "length ?P = length rs"
      using p by (metis length_map)
    with a have ij: "i < j" "j < length ?P" "i < length ?P"
      by simp_all
    have "?P ! i \<le> ?P ! j"
      using sortedP ij by (simp add: sorted_nth_mono)
    moreover have "?P ! i \<noteq> ?P ! j"
      using distinctP ij nth_eq_iff_index_eq [of ?P i j] by blast
    ultimately have "pair_of (rs ! i) < pair_of (rs ! j)"
      using nth a by simp
    with a show "r_id (rs ! i) < r_id (rs ! j)"
      by (simp add: pair_of_def less_prod_def)
  qed
  have "distinct (map snd (sort ?S))"
  proof -
    have "distinct (map snd ?S)"
      by (simp add: scores_snd distinct_map inj_on_def)
    then have "inj_on snd (set ?S)"
      by (simp add: distinct_map)
    then show ?thesis
      by (simp add: distinct_map scores_distinct)
  qed
  then have "distinct (map snd ?P)"
    by (simp add: take_map [symmetric])
  then have "distinct (map snd (map pair_of rs))"
    by (simp only: p)
  then have ids: "distinct (map r_id rs)"
    by (simp add: pair_of_def comp_def)
  have rest: "\<forall>n < length (idx_xb (index s)). int n \<notin> r_id ` set rs \<longrightarrow>
           (\<forall>x \<in> set rs. r_distance x < ?D n \<or> r_distance x = ?D n \<and> r_id x < int n)"
  proof (intro allI impI ballI)
    fix n x
    assume n: "n < length (idx_xb (index s))" and out: "int n \<notin> r_id ` set rs"
      and x: "x \<in> set rs"
    let ?y = "(?D n, int n)"
    have "?y \<in> set ?S"
      using n scores_nth [of n "index s" "renorm_L2 r"] by (metis nth_mem scores_length)
    then have "?y \<in> set (take ?n (sort ?S) @ drop ?n (sort ?S))"
      by simp
    moreover have "?y \<notin> set ?P"
    proof
      assume "?y \<in> set ?P"
      then have "?y \<in> pair_of ` set rs"
        using p by (metis set_map)
      then show False
        using out by (auto simp: pair_of_def)
    qed
    ultimately have y: "?y \<in> set (drop ?n (sort ?S))"
      by (simp only: set_append Un_iff) blast
    have "sorted (take ?n (sort ?S) @ drop ?n (sort ?S))"
      by simp
    then have "\<forall>a \<in> set ?P. \<forall>b \<in> set (drop ?n (sort ?S)). a \<le> b"
      by (simp only: sorted_append) blast
    then have "pair_of x \<le> ?y"
      using mem [OF x] y by blast
    moreover have "pair_of x \<noteq> ?y"
    proof
      assume "pair_of x = ?y"
      then have "r_id x = int n"
        by (simp add: pair_of_def)
      with x have "int n \<in> r_id ` set rs"
        by (metis imageI)
      with out show False ..
    qed
    ultimately have "pair_of x < ?y"
      by simp
    then show "r_distance x < ?D n \<or> r_distance x = ?D n \<and> r_id x < int n"
      by (auto simp: pair_of_def less_prod_def)
  qed
  from s count members ascending ties ids rest show ?thesis
    by blast
qed

theorem search_nearest_first_witness:
  "\<exists>w' rs. search three_vector_store empty_world (Array1 [1, 0]) 2
              = (Array1 [1, 0], Inr (w', rs))
     \<and> int (length rs) = 2 \<and> sorted (map r_distance rs) \<and> distinct (map r_id rs)"
proof -
  have "ncols (Array1 [1, 0]) = idx_d (index three_vector_store)"
    by (simp add: three_vector_store_def)
  moreover have "rows_of (Array1 [1, 0]) = [1, 0] # []"
    by simp
  moreover have "(0::int) \<le> 2"
    by simp
  ultimately obtain w' rs where
    "search three_vector_store empty_world (Array1 [1, 0]) 2
       = (written_back (Array1 [1, 0]) (normalize_L2 (rows_of (Array1 [1, 0]))), Inr (w', rs))"
    "int (length rs) = min 2 (ntotal (index three_vector_store))"
    "sorted (map r_distance rs)" "distinct (map r_id rs)"
    using search_nearest_first [of "Array1 [1, 0]" three_vector_store "[1, 0]" "[]" 2 empty_world]
    by blast
  then show ?thesis
    by (simp add: normalize_L2_def three_vector_store_def ntotal_def)
qed

text \<open>The same query evaluated: the two vectors at distance 0 come in the order of their ids.\<close>

lemma search_example:
  "map pair_of (snd (projr (snd (search three_vector_store empty_world (Array1 [1, 0]) 2))))
     = [(0, 0), (0, 2)]"
  by (simp add: search_def Let_def three_vector_store_def ntotal_def index_search_def knn_def
      scores_def fvec_L2sqr_def normalize_L2_def empty_world_def pair_of_def upt_rec
      less_eq_prod_def less_prod_def)

section \<open>C3: persisting and loading again\<close>

lemma dumped_keys_parse:
  "list_all (\<lambda>kj. \<not> isl (py_int (fst kj))) (map (\<lambda>(k, e). (py_str k, f e)) m)"
  by (induction m) (auto simp: py_int_py_str)

text \<open>
  Claim C3. For every store, whatever it holds: after \<^verbatim>\<open>_save_index\<close> and
  \<^verbatim>\<open>_save_metadata\<close>, as \<^verbatim>\<open>add\<close> runs them, constructing a store from the files succeeds
  for every requested dimension, and the index it holds is the one persisted: the same
  count, the same dimension, the same vectors in the same order. The next id and the ids
  of the metadata come back as well. (The field \<open>dimension\<close> of the new store is the
  requested one.)
\<close>

theorem persist_then_reload:
  "\<exists>w' s'. FAISSVectorStore dm (save_metadata s (save_index s w)) = Inr (w', s')
     \<and> ntotal (index s') = ntotal (index s)
     \<and> idx_d (index s') = idx_d (index s)
     \<and> idx_xb (index s') = idx_xb (index s)
     \<and> next_id s' = next_id s
     \<and> metadata_ids s' = metadata_ids s"
proof -
  let ?w = "save_metadata s (save_index s w)"
  let ?items = "map (\<lambda>(k, e). (py_str k, dump_entry (heap (save_index s w)) e)) (metadata s)"
  have files: "index_file ?w = Some (Content (index s))"
    "metadata_file ?w = Some (Content \<lparr>doc_next_id = Some (next_id s), doc_metadata = Some ?items\<rparr>)"
    by (simp_all add: save_metadata_def save_index_def)
  obtain h' m where lm: "load_items (heap ?w) [] ?items = Inr (h', m)"
    using load_items_accepts [OF dumped_keys_parse] by blast
  have "fst ` set m = {i. \<exists>k \<in> fst ` set ?items. py_int k = Inr i}"
    using load_items_keys [OF lm] by simp
  also have "\<dots> = fst ` set (metadata s)"
    by (force simp: py_int_py_str)
  finally have keys: "fst ` set m = fst ` set (metadata s)" .
  have "FAISSVectorStore dm ?w
      = Inr (?w\<lparr>heap := h'\<rparr>, \<lparr>dimension = dm, index = index s, metadata = m, next_id = next_id s\<rparr>)"
    using files lm by (simp add: FAISSVectorStore_def read_index_def load_metadata_def Let_def)
  then show ?thesis
    using keys by (simp add: metadata_ids_def)
qed

text \<open>The files \<^verbatim>\<open>add\<close> leaves are the persisted state of the store it returns.\<close>

lemma add_then_reload:
  assumes "add s w v tx audio_path chunks = (v', Inr (w', s', i))"
  shows "\<exists>w'' s''. FAISSVectorStore dm w' = Inr (w'', s'') \<and> index s'' = index s'"
proof -
  note r = add_result [OF assms]
  let ?items = "map (\<lambda>(k, e). (py_str k, dump_entry (heap w') e)) (metadata s')"
  obtain h' m where lm: "load_items (heap w') [] ?items = Inr (h', m)"
    using load_items_accepts [OF dumped_keys_parse] by blast
  have "FAISSVectorStore dm w'
      = Inr (w'\<lparr>heap := h'\<rparr>,
             \<lparr>dimension = dm, index = index s', metadata = m, next_id = next_id s'\<rparr>)"
    using r lm by (simp add: FAISSVectorStore_def read_index_def load_metadata_def Let_def)
  then show ?thesis by simp
qed

section \<open>C10: what is shared with the caller\<close>

lemma format_results_chunks:
  assumes "format_results m h acc pairs = (h', rs)"
    and "\<forall>x \<in> set acc. \<forall>e. map_of m (r_id x) = Some e \<and> e_chunks e = Some a \<longrightarrow> r_chunks x = a"
  shows "\<forall>x \<in> set rs. \<forall>e. map_of m (r_id x) = Some e \<and> e_chunks e = Some a \<longrightarrow> r_chunks x = a"
  using assms
proof (induction m h acc pairs rule: format_results.induct)
  case (1 m h results)
  then show ?case by simp
next
  case (2 m h results dis i rest)
  show ?case
  proof (cases "i = -1")
    case True
    with 2 show ?thesis by simp
  next
    case False
    let ?e = "case map_of m i of
                None \<Rightarrow> \<lparr>e_text = None, e_audio_path = None, e_chunks = None\<rparr>
              | Some e \<Rightarrow> e"
    obtain h1 a1 where al: "(case e_chunks ?e of None \<Rightarrow> alloc h [] | Some a \<Rightarrow> (h, a)) = (h1, a1)"
      by (cases "case e_chunks ?e of None \<Rightarrow> alloc h [] | Some a \<Rightarrow> (h, a)")
    let ?x = "\<lparr>r_id = i, r_distance = dis, r_similarity_score = 1 / (1 + dis),
               r_text = get_str (e_text ?e), r_audio_path = get_str (e_audio_path ?e),
               r_chunks = a1\<rparr>"
    have run: "format_results m h1 (results @ [?x]) rest = (h', rs)"
      using "2.prems"(1) False al by (simp add: Let_def)
    have new: "\<forall>e. map_of m (r_id ?x) = Some e \<and> e_chunks e = Some a \<longrightarrow> r_chunks ?x = a"
      using al by auto
    have "\<forall>x \<in> set (results @ [?x]).
        \<forall>e. map_of m (r_id x) = Some e \<and> e_chunks e = Some a \<longrightarrow> r_chunks x = a"
      using "2.prems"(2) new by simp
    with "2.IH"(2) [OF False refl refl al [symmetric] run] show ?thesis .
  qed
qed

lemma search_chunks:
  assumes "search s w q k = (q', Inr (w', rs))" and "x \<in> set rs"
    and "map_of (metadata s) (r_id x) = Some e" and "e_chunks e = Some a"
  shows "r_chunks x = a"
proof (cases "min k (ntotal (index s)) = 0")
  case True
  with assms(1,2) show ?thesis
    by (simp add: search_def Let_def)
next
  case False
  let ?k = "min k (ntotal (index s))"
  from assms(1) False obtain ds ls where
    found: "index_search (index s) (ncols q) (normalize_L2 (rows_of q)) ?k = Inr (ds, ls)"
    by (auto simp: search_def Let_def split: sum.splits)
  from assms(1) False found obtain d0 drest i0 irest where dl: "ds = d0 # drest" "ls = i0 # irest"
    by (auto simp: search_def Let_def split: list.splits)
  obtain h1 rs1 where fr: "format_results (metadata s) (heap w) [] (zip d0 i0) = (h1, rs1)"
    by (cases "format_results (metadata s) (heap w) [] (zip d0 i0)")
  from assms(1) False found dl fr have "rs = rs1"
    by (simp add: search_def Let_def)
  with format_results_chunks [OF fr, of a] assms(2-4) show ?thesis
    by auto
qed

lemma renorm_2_0: "renorm_L2 [2, 0] = [1, 0]"
  by (simp add: renorm_L2_def fvec_norm_L2sqr_def)

lemma renorm_0_2: "renorm_L2 [0, 2] = [0, 1]"
  by (simp add: renorm_L2_def fvec_norm_L2sqr_def)

text \<open>
  Claim C10, as stated, fails. After \<^verbatim>\<open>add\<close> the caller's array \<open>[2, 0]\<close> holds \<open>[1, 0]\<close>.
  The result of \<^verbatim>\<open>search\<close> carries the list object of address 0, the one the metadata
  record holds: once the caller clears it, the record of the store reads empty.
\<close>

theorem caller_array_and_chunks_counterexample:
  "fst (add (fresh_store 2) chunk_world (Array1 [2, 0]) ''a'' ''a.wav'' (Some 0)) = Array1 [1, 0]
   \<and> map r_chunks (snd (projr (snd (search one_vector_store chunk_world (Array1 [1, 0]) 1)))) = [0]
   \<and> map (\<lambda>(i, e). (i, j_chunks (dump_entry (heap chunk_world) e))) (metadata one_vector_store)
       = [(0, Some [Chunk (0, 1) ''hi''])]
   \<and> map (\<lambda>(i, e). (i, j_chunks (dump_entry ((heap chunk_world)[0 := []]) e)))
         (metadata one_vector_store)
       = [(0, Some [])]"
proof (intro conjI)
  show "fst (add (fresh_store 2) chunk_world (Array1 [2, 0]) ''a'' ''a.wav'' (Some 0))
      = Array1 [1, 0]"
    by (simp add: add_def Let_def normalize_L2_def renorm_2_0 split_beta index_add_def
        fresh_store_def IndexFlatL2_def)
  show "map r_chunks (snd (projr (snd (search one_vector_store chunk_world (Array1 [1, 0]) 1))))
      = [0]"
    by (simp add: search_def Let_def one_vector_store_def ntotal_def index_search_def knn_def
        scores_def normalize_L2_def chunk_world_def)
  show "map (\<lambda>(i, e). (i, j_chunks (dump_entry (heap chunk_world) e))) (metadata one_vector_store)
       = [(0, Some [Chunk (0, 1) ''hi''])]"
    by (simp add: one_vector_store_def dump_entry_def deref_def chunk_world_def)
  show "map (\<lambda>(i, e). (i, j_chunks (dump_entry ((heap chunk_world)[0 := []]) e)))
         (metadata one_vector_store)
       = [(0, Some [])]"
    by (simp add: one_vector_store_def dump_entry_def deref_def chunk_world_def)
qed

text \<open>
  Claim C10, amended. \<^verbatim>\<open>add\<close> and \<^verbatim>\<open>search\<close> normalise the caller's array in place: when
  the call returns or raises, the array holds every row divided by its norm (rows of norm
  zero as they were). \<^verbatim>\<open>add\<close> keeps the caller's own list object as the chunks of the new
  record when that list is not empty, and the \<open>chunks\<close> of a search result is the list
  object of the metadata record of its id, so a mutation through either is a mutation of
  the store's metadata. The other fields of a result are immutable values.
\<close>

theorem arrays_and_chunks_shared:
  "fst (add s w v tx audio_path chunks) = written_back v (normalize_L2 (rows_of v))
   \<and> fst (search s w v k) = written_back v (normalize_L2 (rows_of v))
   \<and> (\<forall>w' s' i. snd (add s w v tx audio_path (Some a)) = Inr (w', s', i)
          \<and> deref (heap w) a \<noteq> []
        \<longrightarrow> map_of (metadata s') i
              = Some \<lparr>e_text = Some tx, e_audio_path = Some audio_path, e_chunks = Some a\<rparr>)
   \<and> (\<forall>w' rs x e. snd (search s w v k) = Inr (w', rs) \<and> x \<in> set rs
          \<and> map_of (metadata s) (r_id x) = Some e \<and> e_chunks e = Some a
        \<longrightarrow> r_chunks x = a)"
proof (intro conjI allI impI)
  show "fst (add s w v tx audio_path chunks) = written_back v (normalize_L2 (rows_of v))"
    by (simp add: add_def Let_def split_beta split: sum.splits)
  show "fst (search s w v k) = written_back v (normalize_L2 (rows_of v))"
    by (simp add: search_def Let_def split_beta split: sum.splits list.splits)
next
  fix w' s' i
  assume a: "snd (add s w v tx audio_path (Some a)) = Inr (w', s', i) \<and> deref (heap w) a \<noteq> []"
  then have "chunks_or_empty (heap w) (Some a) = (heap w, a)"
    by (simp add: chunks_or_empty_def)
  with a show "map_of (metadata s') i
      = Some \<lparr>e_text = Some tx, e_audio_path = Some audio_path, e_chunks = Some a\<rparr>"
    by (auto simp: add_def Let_def AList.update_conv' split: sum.splits)
next
  fix w' rs x e
  assume a: "snd (search s w v k) = Inr (w', rs) \<and> x \<in> set rs
          \<and> map_of (metadata s) (r_id x) = Some e \<and> e_chunks e = Some a"
  obtain q' where "search s w v k = (q', Inr (w', rs))"
    using a by (cases "search s w v k") auto
  with a show "r_chunks x = a"
    using search_chunks by blast
qed

theorem arrays_and_chunks_shared_witness:
  "deref (heap chunk_world) 0 \<noteq> []
   \<and> fst (add (fresh_store 2) chunk_world (Array1 [0, 2]) ''b'' ''b.wav'' (Some 0)) = Array1 [0, 1]
   \<and> map_of (metadata (fst (snd (projr (snd
         (add (fresh_store 2) chunk_world (Array1 [0, 2]) ''b'' ''b.wav'' (Some 0))))))) 0
       = Some \<lparr>e_text = Some ''b'', e_audio_path = Some ''b.wav'', e_chunks = Some 0\<rparr>"
  using arrays_and_chunks_shared [of "fresh_store 2" chunk_world "Array1 [0, 2]" "''b''" "''b.wav''"
      "Some 0" 1 0]
  by (simp add: add_def Let_def normalize_L2_def renorm_0_2 index_add_def fresh_store_def
      IndexFlatL2_def chunks_or_empty_def deref_def chunk_world_def)

section \<open>C9: what add stores of a zero row and of any other row\<close>









end
